theory Spec2Isabelle
  imports Main "HOL-Library.Word"
begin

unbundle bit_operations_syntax

section \<open>Cluster membership of one Raft group (internal/rsm/membership.go)\<close>

text \<open>
  The file embeds the membership store of package \<open>rsm\<close>: the record of voters
  (\<open>Addresses\<close>), observers, witnesses and removed nodes, the predicates that classify a
  configuration change, the function that applies an accepted change, and the entry point
  \<open>handleConfigChange\<close> (the spec's \<open>applyChange\<close>).

  Go's \<open>uint64\<close> is \<open>64 word\<close>. A Go map is a partial function; since the key type
  is finite every domain is finite, so \<open>len(m)\<close> is \<open>card (dom m)\<close>. The store always
  holds allocated maps (\<open>newMembership\<close> and \<open>set\<close> both \<open>make\<close> them), so
  no write to a nil map is modelled. A panic is a value of type \<open>panic\<close> on the left of
  a sum; the log line written by \<open>handleConfigChange\<close> is returned as a \<open>log_event\<close>.
\<close>

subsection \<open>Data model\<close>

type_synonym uint64 = "64 word"
type_synonym byte = "8 word"

text \<open>
  Modelled from the spec: the enum \<open>pb.ConfigChangeType\<close> is declared in package
  \<open>raftpb\<close>, which is not among the sources. The code names the four constants
  \<open>pb.AddNode\<close> (the spec's AddVoter), \<open>pb.RemoveNode\<close>, \<open>pb.AddObserver\<close> and
  \<open>pb.AddWitness\<close>; the type is an \<open>int32\<close>, so a request can carry any other value,
  which is \<open>UnknownType v\<close> here (\<open>v\<close> is the raw value, none of the four).
\<close>

datatype ConfigChangeType =
    AddNode
  | RemoveNode
  | AddObserver
  | AddWitness
  | UnknownType "32 word"

text \<open>
  Modelled from the spec: \<open>pb.ConfigChange\<close> is declared in \<open>raftpb\<close>; the fields are
  those the code reads. The field \<open>ConfigChangeId\<close> of the request carries a suffix, as
  the snapshot has a field of the same name.
\<close>

record ConfigChange =
  ConfigChangeId_cc :: uint64
  Type :: ConfigChangeType
  NodeID :: uint64
  Address :: string
  Initialize :: bool

text \<open>
  Modelled from the spec: \<open>pb.Membership\<close> is declared in \<open>raftpb\<close>; the fields are
  those the code reads and writes. \<open>Removed\<close> is a \<open>map[uint64]bool\<close> of which only
  the keys are ever tested.
\<close>

record Membership =
  ConfigChangeId :: uint64
  Addresses :: "uint64 \<rightharpoonup> string"
  Removed :: "uint64 \<rightharpoonup> bool"
  Observers :: "uint64 \<rightharpoonup> string"
  Witnesses :: "uint64 \<rightharpoonup> string"

record membership =
  clusterID :: uint64
  nodeID :: uint64
  ordered :: bool
  members :: Membership

datatype panic =
    NotSupposeToReachHere
  | UnknownConfigChangeType
  | UnknownCCTypeValue
  | RejectedForUnknownReasons
  | SliceBoundsOutOfRange

datatype log_event =
    AppliedAdd
  | AppliedRemove
  | AppliedAddObserver
  | AppliedAddWitness
  | RejOutOfOrder
  | RejAddRemoved
  | RejAddExist
  | RejAddExistAsObserver
  | RejAddExistAsWitness
  | RejAddWitnessAsNode
  | RejAddWitnessAsObserver
  | RejAddObserverAsWitness
  | RejRemoveOnlyNode
  | RejInvalidObserverPromotion

subsection \<open>Address comparison\<close>

text \<open>
  \<open>addressEqual\<close> is \<open>strings.EqualFold\<close> on the two \<open>strings.TrimSpace\<close>d
  addresses. Both library functions are modelled on bytes for ASCII text, which is what a
  host:port address is: \<open>TrimSpace\<close> strips the six ASCII white-space bytes (tab, line
  feed, vertical tab, form feed, carriage return, space) from both ends, and
  \<open>EqualFold\<close> compares byte by byte, two bytes being equal under folding when they
  are the same or are the upper-case and lower-case form of one ASCII letter. A byte of
  0x80 and above is kept as it is (Go would decode UTF-8 and use the Unicode tables
  there).
\<close>

definition isSpace :: "char \<Rightarrow> bool" where
  "isSpace c = (of_char c \<in> {9, 10, 11, 12, 13, 32 :: nat})"

definition TrimSpace :: "string \<Rightarrow> string" where
  "TrimSpace s = rev (dropWhile isSpace (rev (dropWhile isSpace s)))"

definition foldEq :: "char \<Rightarrow> char \<Rightarrow> bool" where
  "foldEq sr tr =
     (if sr = tr then True
      else (let lo = min (of_char sr) (of_char tr :: nat);
                hi = max (of_char sr) (of_char tr :: nat)
            in 65 \<le> lo \<and> lo \<le> 90 \<and> hi = lo + 32))"

fun EqualFold :: "string \<Rightarrow> string \<Rightarrow> bool" where
  "EqualFold [] [] = True"
| "EqualFold (sr # s) (tr # t) = (foldEq sr tr \<and> EqualFold s t)"
| "EqualFold _ _ = False"

definition addressEqual :: "string \<Rightarrow> string \<Rightarrow> bool" where
  "addressEqual addr1 addr2 = EqualFold (TrimSpace addr1) (TrimSpace addr2)"

subsection \<open>The store\<close>

definition deepCopyMembership :: "Membership \<Rightarrow> Membership" where
  "deepCopyMembership m =
     \<lparr> ConfigChangeId = ConfigChangeId m,
       Addresses = Addresses m,
       Removed = (\<lambda>nid. if nid \<in> dom (Removed m) then Some True else None),
       Observers = Observers m,
       Witnesses = Witnesses m \<rparr>"

definition newMembership :: "uint64 \<Rightarrow> uint64 \<Rightarrow> bool \<Rightarrow> membership" where
  "newMembership cid nid ord =
     \<lparr> clusterID = cid, nodeID = nid, ordered = ord,
       members = \<lparr> ConfigChangeId = 0, Addresses = Map.empty, Removed = Map.empty,
                   Observers = Map.empty, Witnesses = Map.empty \<rparr> \<rparr>"

definition set_membership :: "membership \<Rightarrow> Membership \<Rightarrow> membership" where
  "set_membership m n = m\<lparr>members := deepCopyMembership n\<rparr>"

definition getMembership :: "membership \<Rightarrow> Membership" where
  "getMembership m = deepCopyMembership (members m)"

definition isEmpty :: "membership \<Rightarrow> bool" where
  "isEmpty m = (card (dom (Addresses (members m))) = 0)"

subsection \<open>Role predicates\<close>

definition isConfChangeUpToDate :: "membership \<Rightarrow> ConfigChange \<Rightarrow> bool" where
  "isConfChangeUpToDate m cc =
     (if \<not> ordered m \<or> Initialize cc then True
      else if ConfigChangeId (members m) = ConfigChangeId_cc cc then True
      else False)"

definition isAddingRemovedNode :: "membership \<Rightarrow> ConfigChange \<Rightarrow> bool" where
  "isAddingRemovedNode m cc =
     (if Type cc = AddNode \<or> Type cc = AddObserver \<or> Type cc = AddWitness
      then NodeID cc \<in> dom (Removed (members m))
      else False)"

definition isPromotingObserver :: "membership \<Rightarrow> ConfigChange \<Rightarrow> bool" where
  "isPromotingObserver m cc =
     (if Type cc = AddNode
      then (case Observers (members m) (NodeID cc) of
              None \<Rightarrow> False
            | Some oa \<Rightarrow> addressEqual oa (Address cc))
      else False)"

definition isInvalidObserverPromotion :: "membership \<Rightarrow> ConfigChange \<Rightarrow> bool" where
  "isInvalidObserverPromotion m cc =
     (if Type cc = AddNode
      then (case Observers (members m) (NodeID cc) of
              None \<Rightarrow> False
            | Some oa \<Rightarrow> \<not> addressEqual oa (Address cc))
      else False)"

definition isAddingExistingMember :: "membership \<Rightarrow> ConfigChange \<Rightarrow> bool" where
  "isAddingExistingMember m cc =
     (if Type cc = AddNode \<and> NodeID cc \<in> dom (Addresses (members m)) then True
      else if Type cc = AddObserver \<and> NodeID cc \<in> dom (Observers (members m)) then True
      else if Type cc = AddWitness \<and> NodeID cc \<in> dom (Witnesses (members m)) then True
      else if isPromotingObserver m cc then False
      else if Type cc = AddNode \<or> Type cc = AddObserver \<or> Type cc = AddWitness
      then (\<exists>addr \<in> ran (Addresses (members m)). addressEqual addr (Address cc))
         \<or> (\<exists>addr \<in> ran (Observers (members m)). addressEqual addr (Address cc))
         \<or> (\<exists>addr \<in> ran (Witnesses (members m)). addressEqual addr (Address cc))
      else False)"

definition isAddingNodeAsObserver :: "membership \<Rightarrow> ConfigChange \<Rightarrow> bool" where
  "isAddingNodeAsObserver m cc =
     (if Type cc = AddObserver then NodeID cc \<in> dom (Addresses (members m)) else False)"

definition isAddingNodeAsWitness :: "membership \<Rightarrow> ConfigChange \<Rightarrow> bool" where
  "isAddingNodeAsWitness m cc =
     (if Type cc = AddWitness then NodeID cc \<in> dom (Addresses (members m)) else False)"

definition isAddingWitnessAsObserver :: "membership \<Rightarrow> ConfigChange \<Rightarrow> bool" where
  "isAddingWitnessAsObserver m cc =
     (if Type cc = AddObserver then NodeID cc \<in> dom (Witnesses (members m)) else False)"

definition isAddingWitnessAsNode :: "membership \<Rightarrow> ConfigChange \<Rightarrow> bool" where
  "isAddingWitnessAsNode m cc =
     (if Type cc = AddNode then NodeID cc \<in> dom (Witnesses (members m)) else False)"

definition isAddingObserverAsWitness :: "membership \<Rightarrow> ConfigChange \<Rightarrow> bool" where
  "isAddingObserverAsWitness m cc =
     (if Type cc = AddWitness then NodeID cc \<in> dom (Observers (members m)) else False)"

definition isDeletingOnlyNode :: "membership \<Rightarrow> ConfigChange \<Rightarrow> bool" where
  "isDeletingOnlyNode m cc =
     (if Type cc = RemoveNode \<and> card (dom (Addresses (members m))) = 1
      then NodeID cc \<in> dom (Addresses (members m))
      else False)"

subsection \<open>Applying a change\<close>

text \<open>
  \<open>applyConfigChange\<close> first stamps the snapshot with the entry index, then switches on
  the kind. A panic ends the process, so the panicking branches return no store.
\<close>

definition applyConfigChange :: "membership \<Rightarrow> ConfigChange \<Rightarrow> uint64 \<Rightarrow> panic + membership" where
  "applyConfigChange m cc index =
     (let ms = (members m)\<lparr>ConfigChangeId := index\<rparr> in
      case Type cc of
        AddNode \<Rightarrow>
          (let ms1 = ms\<lparr>Observers := (Observers ms)(NodeID cc := None)\<rparr> in
           if NodeID cc \<in> dom (Witnesses ms1) then Inl NotSupposeToReachHere
           else Inr (m\<lparr>members := ms1\<lparr>Addresses := (Addresses ms1)(NodeID cc \<mapsto> Address cc)\<rparr>\<rparr>))
      | AddObserver \<Rightarrow>
          if NodeID cc \<in> dom (Addresses ms) then Inl NotSupposeToReachHere
          else Inr (m\<lparr>members := ms\<lparr>Observers := (Observers ms)(NodeID cc \<mapsto> Address cc)\<rparr>\<rparr>)
      | AddWitness \<Rightarrow>
          if NodeID cc \<in> dom (Addresses ms) then Inl NotSupposeToReachHere
          else if NodeID cc \<in> dom (Observers ms) then Inl NotSupposeToReachHere
          else Inr (m\<lparr>members := ms\<lparr>Witnesses := (Witnesses ms)(NodeID cc \<mapsto> Address cc)\<rparr>\<rparr>)
      | RemoveNode \<Rightarrow>
          Inr (m\<lparr>members := ms\<lparr>Addresses := (Addresses ms)(NodeID cc := None),
                                Observers := (Observers ms)(NodeID cc := None),
                                Witnesses := (Witnesses ms)(NodeID cc := None),
                                Removed := (Removed ms)(NodeID cc \<mapsto> True)\<rparr>\<rparr>)
      | UnknownType v \<Rightarrow> Inl UnknownConfigChangeType)"

text \<open>
  \<open>handleConfigChange\<close> returns the flag \<open>accepted\<close>; the model returns with it the
  store after the call and the one log line written. The two \<open>plog.Panicf\<close> calls are
  panics as well.
\<close>

definition handleConfigChange ::
  "membership \<Rightarrow> ConfigChange \<Rightarrow> uint64 \<Rightarrow> panic + (bool \<times> membership \<times> log_event)" where
  "handleConfigChange m cc index =
     (let nodeBecomingObserver = isAddingNodeAsObserver m cc;
          nodeBecomingWitness = isAddingNodeAsWitness m cc;
          witnessBecomingNode = isAddingWitnessAsNode m cc;
          witnessBecomingObserver = isAddingWitnessAsObserver m cc;
          observerBecomingWitness = isAddingObserverAsWitness m cc;
          alreadyMember = isAddingExistingMember m cc;
          addRemovedNode = isAddingRemovedNode m cc;
          upToDateCC = isConfChangeUpToDate m cc;
          deleteOnlyNode = isDeletingOnlyNode m cc;
          invalidPromotion = isInvalidObserverPromotion m cc;
          accepted = (upToDateCC \<and>
            \<not> addRemovedNode \<and>
            \<not> alreadyMember \<and>
            \<not> nodeBecomingObserver \<and>
            \<not> nodeBecomingWitness \<and>
            \<not> witnessBecomingNode \<and>
            \<not> witnessBecomingObserver \<and>
            \<not> observerBecomingWitness \<and>
            \<not> deleteOnlyNode \<and>
            \<not> invalidPromotion)
      in if accepted then
           (case applyConfigChange m cc index of
              Inl p \<Rightarrow> Inl p
            | Inr m' \<Rightarrow>
                if Type cc = AddNode then Inr (accepted, m', AppliedAdd)
                else if Type cc = RemoveNode then Inr (accepted, m', AppliedRemove)
                else if Type cc = AddObserver then Inr (accepted, m', AppliedAddObserver)
                else if Type cc = AddWitness then Inr (accepted, m', AppliedAddWitness)
                else Inl UnknownCCTypeValue)
         else if \<not> upToDateCC then Inr (accepted, m, RejOutOfOrder)
         else if addRemovedNode then Inr (accepted, m, RejAddRemoved)
         else if alreadyMember then Inr (accepted, m, RejAddExist)
         else if nodeBecomingObserver then Inr (accepted, m, RejAddExistAsObserver)
         else if nodeBecomingWitness then Inr (accepted, m, RejAddExistAsWitness)
         else if witnessBecomingNode then Inr (accepted, m, RejAddWitnessAsNode)
         else if witnessBecomingObserver then Inr (accepted, m, RejAddWitnessAsObserver)
         else if observerBecomingWitness then Inr (accepted, m, RejAddObserverAsWitness)
         else if deleteOnlyNode then Inr (accepted, m, RejRemoveOnlyNode)
         else if invalidPromotion then Inr (accepted, m, RejInvalidObserverPromotion)
         else Inl RejectedForUnknownReasons)"

subsection \<open>The digest\<close>

text \<open>
  \<open>binary.LittleEndian\<close> writes the least significant byte first. \<open>Uint64\<close> reads
  eight bytes and panics on a shorter slice, which is \<open>None\<close> here.
\<close>

type_synonym uint32 = "32 word"

definition PutUint32 :: "uint32 \<Rightarrow> byte list" where
  "PutUint32 v = [ucast v, ucast (drop_bit 8 v), ucast (drop_bit 16 v), ucast (drop_bit 24 v)]"

definition PutUint64 :: "uint64 \<Rightarrow> byte list" where
  "PutUint64 v = [ucast v, ucast (drop_bit 8 v), ucast (drop_bit 16 v), ucast (drop_bit 24 v),
                  ucast (drop_bit 32 v), ucast (drop_bit 40 v), ucast (drop_bit 48 v),
                  ucast (drop_bit 56 v)]"

fun Uint32 :: "byte list \<Rightarrow> uint32" where
  "Uint32 (b0 # b1 # b2 # b3 # rest) =
     ucast b0 OR push_bit 8 (ucast b1) OR push_bit 16 (ucast b2) OR push_bit 24 (ucast b3)"
| "Uint32 _ = 0"

fun Uint64 :: "byte list \<Rightarrow> uint64 option" where
  "Uint64 (b0 # b1 # b2 # b3 # b4 # b5 # b6 # b7 # rest) =
     Some (ucast b0 OR push_bit 8 (ucast b1) OR push_bit 16 (ucast b2) OR
           push_bit 24 (ucast b3) OR push_bit 32 (ucast b4) OR push_bit 40 (ucast b5) OR
           push_bit 48 (ucast b6) OR push_bit 56 (ucast b7))"
| "Uint64 _ = None"

text \<open>
  \<open>crypto/md5\<close> is Go's standard library; it is modelled after RFC 1321. The message is
  padded with the byte 0x80, zero bytes up to 56 modulo 64 and the bit length in eight
  little-endian bytes; each block of 64 bytes, read as sixteen little-endian words \<open>M\<close>
  (\<open>md5_block\<close> always gets a full block, so \<open>Uint32\<close> never meets a short one),
  goes through 64 steps; the sum is the four state words in little-endian bytes.
\<close>

definition md5_s :: "nat list" where
  "md5_s = [7, 12, 17, 22, 7, 12, 17, 22, 7, 12, 17, 22, 7, 12, 17, 22,
            5, 9, 14, 20, 5, 9, 14, 20, 5, 9, 14, 20, 5, 9, 14, 20,
            4, 11, 16, 23, 4, 11, 16, 23, 4, 11, 16, 23, 4, 11, 16, 23,
            6, 10, 15, 21, 6, 10, 15, 21, 6, 10, 15, 21, 6, 10, 15, 21]"

definition md5_K :: "uint32 list" where
  "md5_K = [
      0xd76aa478, 0xe8c7b756, 0x242070db, 0xc1bdceee,
      0xf57c0faf, 0x4787c62a, 0xa8304613, 0xfd469501,
      0x698098d8, 0x8b44f7af, 0xffff5bb1, 0x895cd7be,
      0x6b901122, 0xfd987193, 0xa679438e, 0x49b40821,
      0xf61e2562, 0xc040b340, 0x265e5a51, 0xe9b6c7aa,
      0xd62f105d, 0x02441453, 0xd8a1e681, 0xe7d3fbc8,
      0x21e1cde6, 0xc33707d6, 0xf4d50d87, 0x455a14ed,
      0xa9e3e905, 0xfcefa3f8, 0x676f02d9, 0x8d2a4c8a,
      0xfffa3942, 0x8771f681, 0x6d9d6122, 0xfde5380c,
      0xa4beea44, 0x4bdecfa9, 0xf6bb4b60, 0xbebfbc70,
      0x289b7ec6, 0xeaa127fa, 0xd4ef3085, 0x04881d05,
      0xd9d4d039, 0xe6db99e5, 0x1fa27cf8, 0xc4ac5665,
      0xf4292244, 0x432aff97, 0xab9423a7, 0xfc93a039,
      0x655b59c3, 0x8f0ccc92, 0xffeff47d, 0x85845dd1,
      0x6fa87e4f, 0xfe2ce6e0, 0xa3014314, 0x4e0811a1,
      0xf7537e82, 0xbd3af235, 0x2ad7d2bb, 0xeb86d391]"

definition md5_f :: "nat \<Rightarrow> uint32 \<Rightarrow> uint32 \<Rightarrow> uint32 \<Rightarrow> uint32" where
  "md5_f i b c d =
     (if i < 16 then (b AND c) OR (NOT b AND d)
      else if i < 32 then (d AND b) OR (NOT d AND c)
      else if i < 48 then b XOR c XOR d
      else c XOR (b OR NOT d))"

definition md5_g :: "nat \<Rightarrow> nat" where
  "md5_g i =
     (if i < 16 then i
      else if i < 32 then (5 * i + 1) mod 16
      else if i < 48 then (3 * i + 5) mod 16
      else (7 * i) mod 16)"

type_synonym md5_state = "uint32 \<times> uint32 \<times> uint32 \<times> uint32"

definition md5_step :: "uint32 list \<Rightarrow> nat \<Rightarrow> md5_state \<Rightarrow> md5_state" where
  "md5_step M i = (\<lambda>(a, b, c, d).
     (d, b + word_rotl (md5_s ! i) (md5_f i b c d + a + md5_K ! i + M ! md5_g i), b, c))"

definition md5_block :: "byte list \<Rightarrow> md5_state \<Rightarrow> md5_state" where
  "md5_block blk = (\<lambda>(a0, b0, c0, d0).
     (let M = map (\<lambda>k. Uint32 (drop (4 * k) blk)) [0..<16];
          (a, b, c, d) = fold (md5_step M) [0..<64] (a0, b0, c0, d0)
      in (a0 + a, b0 + b, c0 + c, d0 + d)))"

definition md5_pad :: "byte list \<Rightarrow> byte list" where
  "md5_pad msg =
     msg @ [0x80] @ replicate ((119 - length msg mod 64) mod 64) 0
         @ PutUint64 (of_nat (8 * length msg))"

definition md5_Sum :: "byte list \<Rightarrow> byte list" where
  "md5_Sum msg =
     (let p = md5_pad msg;
          (a, b, c, d) = fold (\<lambda>k. md5_block (take 64 (drop (64 * k) p))) [0..<length p div 64]
                           (0x67452301, 0xefcdab89, 0x98badcfe, 0x10325476)
      in PutUint32 a @ PutUint32 b @ PutUint32 c @ PutUint32 d)"

text \<open>
  \<open>getHash\<close> collects the keys of \<open>Addresses\<close> with \<open>range\<close>, in an order Go leaves
  open: the order is the argument \<open>order\<close>, and \<open>isRangeOrder\<close> says that it lists
  every key once. The keys are sorted, the change id is appended, every value is written
  to the hash in eight bytes (the hash object is the bytes written so far; \<open>Write\<close> of
  \<open>crypto/md5\<close> returns no error), and the first eight bytes of the sum are read back.
\<close>

definition isRangeOrder :: "('k \<rightharpoonup> 'v) \<Rightarrow> 'k list \<Rightarrow> bool" where
  "isRangeOrder mp ks = (distinct ks \<and> set ks = dom mp)"

definition getHash :: "membership \<Rightarrow> uint64 list \<Rightarrow> panic + uint64" where
  "getHash m order =
     (let vals = sort order @ [ConfigChangeId (members m)];
          written = fold (\<lambda>v h. h @ PutUint64 v) vals [];
          md5sum = md5_Sum written
      in case Uint64 (take 8 md5sum) of
           None \<Rightarrow> Inl SliceBoundsOutOfRange
         | Some h \<Rightarrow> Inr h)"

subsection \<open>Sequences of calls\<close>

text \<open>
  \<open>run_changes\<close> delivers a list of (request, log index) pairs to \<open>handleConfigChange\<close>
  one after the other and records, for every call, the flag returned and the change id
  of the snapshot after the call. A panic ends the run.
\<close>

fun run_changes ::
  "membership \<Rightarrow> (ConfigChange \<times> uint64) list \<Rightarrow> panic + ((bool \<times> uint64) list \<times> membership)" where
  "run_changes m [] = Inr ([], m)"
| "run_changes m ((cc, index) # rest) =
     (case handleConfigChange m cc index of
        Inl p \<Rightarrow> Inl p
      | Inr (a, m1, ev) \<Rightarrow>
          (case run_changes m1 rest of
             Inl p \<Rightarrow> Inl p
           | Inr (log, m2) \<Rightarrow> Inr ((a, ConfigChangeId (members m1)) # log, m2)))"

text \<open>The two operations of the store that change it: \<open>handleConfigChange\<close> and \<open>set\<close>.\<close>

datatype store_op = ApplyChange ConfigChange uint64 | SetSnapshot Membership

fun isApplyChange :: "store_op \<Rightarrow> bool" where
  "isApplyChange (ApplyChange cc index) = True"
| "isApplyChange (SetSnapshot n) = False"

fun store_step :: "membership \<Rightarrow> store_op \<Rightarrow> panic + membership" where
  "store_step m (ApplyChange cc index) =
     (case handleConfigChange m cc index of Inl p \<Rightarrow> Inl p | Inr (a, m', ev) \<Rightarrow> Inr m')"
| "store_step m (SetSnapshot n) = Inr (set_membership m n)"

fun store_run :: "membership \<Rightarrow> store_op list \<Rightarrow> panic + membership" where
  "store_run m [] = Inr m"
| "store_run m (x # ops) =
     (case store_step m x of Inl p \<Rightarrow> Inl p | Inr m' \<Rightarrow> store_run m' ops)"

subsection \<open>Notions of the specification\<close>

text \<open>
  A request is stale when order enforcement is enabled, the request is not a bootstrap
  request, and its order differs from the change order of the snapshot.
\<close>

definition stale :: "membership \<Rightarrow> ConfigChange \<Rightarrow> bool" where
  "stale m cc =
     (ordered m \<and> \<not> Initialize cc \<and> ConfigChangeId_cc cc \<noteq> ConfigChangeId (members m))"

definition knownType :: "ConfigChangeType \<Rightarrow> bool" where
  "knownType t = (t = AddNode \<or> t = RemoveNode \<or> t = AddObserver \<or> t = AddWitness)"

text \<open>The nine rejection predicates taken together.\<close>

definition rejecting :: "membership \<Rightarrow> ConfigChange \<Rightarrow> bool" where
  "rejecting m cc =
     (isAddingRemovedNode m cc \<or> isAddingExistingMember m cc \<or> isAddingNodeAsObserver m cc \<or>
      isAddingNodeAsWitness m cc \<or> isAddingWitnessAsNode m cc \<or>
      isAddingWitnessAsObserver m cc \<or> isAddingObserverAsWitness m cc \<or>
      isDeletingOnlyNode m cc \<or> isInvalidObserverPromotion m cc)"

text \<open>The flag a call returned, \<open>None\<close> when the call panicked.\<close>

definition accepted_of :: "panic + (bool \<times> membership \<times> log_event) \<Rightarrow> bool option" where
  "accepted_of r = (case r of Inl p \<Rightarrow> None | Inr (a, m', ev) \<Rightarrow> Some a)"

text \<open>Exclusivity: no node id is in two of the three role maps.\<close>

definition exclusive :: "Membership \<Rightarrow> bool" where
  "exclusive ms =
     (dom (Addresses ms) \<inter> dom (Observers ms) = {} \<and>
      dom (Addresses ms) \<inter> dom (Witnesses ms) = {} \<and>
      dom (Observers ms) \<inter> dom (Witnesses ms) = {})"



text \<open>
  The digest as the specification words it: the little-endian encodings of the voter
  ids in ascending order, then that of the change order, hashed, and the first eight
  bytes of the sum read as a little-endian integer.
\<close>

definition digest :: "Membership \<Rightarrow> uint64 option" where
  "digest ms =
     Uint64 (take 8 (md5_Sum (concat (map PutUint64 (sorted_list_of_set (dom (Addresses ms))))
                              @ PutUint64 (ConfigChangeId ms))))"

subsection \<open>Example stores and requests\<close>

definition ex_bootstrap :: ConfigChange where
  "ex_bootstrap = \<lparr> ConfigChangeId_cc = 0, Type = AddNode, NodeID = 1,
                    Address = ''10.0.0.1:9000'', Initialize = True \<rparr>"

definition ex_observer1 :: ConfigChange where
  "ex_observer1 = \<lparr> ConfigChangeId_cc = 1, Type = AddObserver, NodeID = 1,
                    Address = ''10.0.0.1:9000'', Initialize = False \<rparr>"

definition ex_voter2 :: ConfigChange where
  "ex_voter2 = \<lparr> ConfigChangeId_cc = 1, Type = AddNode, NodeID = 2,
                 Address = ''10.0.0.2:9000'', Initialize = False \<rparr>"

definition ex_stale :: ConfigChange where
  "ex_stale = \<lparr> ConfigChangeId_cc = 7, Type = AddNode, NodeID = 1,
                Address = ''10.0.0.1:9000'', Initialize = False \<rparr>"

definition ex_unknown :: ConfigChange where
  "ex_unknown = \<lparr> ConfigChangeId_cc = 0, Type = UnknownType 9, NodeID = 1,
                  Address = ''a'', Initialize = False \<rparr>"

definition ex_unknown_stale :: ConfigChange where
  "ex_unknown_stale = \<lparr> ConfigChangeId_cc = 7, Type = UnknownType 9, NodeID = 1,
                        Address = ''a'', Initialize = False \<rparr>"

definition ex_remove1 :: ConfigChange where
  "ex_remove1 = \<lparr> ConfigChangeId_cc = 42, Type = RemoveNode, NodeID = 1,
                  Address = [], Initialize = False \<rparr>"

definition ex_remove5 :: ConfigChange where
  "ex_remove5 = \<lparr> ConfigChangeId_cc = 0, Type = RemoveNode, NodeID = 5,
                  Address = [], Initialize = False \<rparr>"



definition ex_one_voter :: membership where
  "ex_one_voter =
     \<lparr> clusterID = 1, nodeID = 1, ordered = True,
       members = \<lparr> ConfigChangeId = 1, Addresses = [1 \<mapsto> ''a''], Removed = Map.empty,
                   Observers = Map.empty, Witnesses = Map.empty \<rparr> \<rparr>"

definition ex_two_voters :: membership where
  "ex_two_voters =
     \<lparr> clusterID = 1, nodeID = 1, ordered = True,
       members = \<lparr> ConfigChangeId = 3, Addresses = [1 \<mapsto> ''a'', 2 \<mapsto> ''b''],
                   Removed = Map.empty, Observers = [3 \<mapsto> ''c''], Witnesses = Map.empty \<rparr> \<rparr>"


text \<open>The voters of \<open>ex_two_voters\<close> under other addresses, with other maps around them.\<close>

definition ex_two_voters_moved :: membership where
  "ex_two_voters_moved =
     \<lparr> clusterID = 1, nodeID = 2, ordered = False,
       members = \<lparr> ConfigChangeId = 3, Addresses = [2 \<mapsto> ''x'', 1 \<mapsto> ''y''],
                   Removed = [9 \<mapsto> True], Observers = Map.empty,
                   Witnesses = [4 \<mapsto> ''w''] \<rparr> \<rparr>"


definition ex_removed5 :: membership where
  "ex_removed5 =
     \<lparr> clusterID = 1, nodeID = 1, ordered = True,
       members = \<lparr> ConfigChangeId = 1, Addresses = Map.empty, Removed = [5 \<mapsto> True],
                   Observers = Map.empty, Witnesses = Map.empty \<rparr> \<rparr>"

definition ex_snapshot :: Membership where
  "ex_snapshot = \<lparr> ConfigChangeId = 0, Addresses = [1 \<mapsto> ''a''], Removed = Map.empty,
                   Observers = Map.empty, Witnesses = Map.empty \<rparr>"

section \<open>Properties\<close>

subsection \<open>The validator and the applier\<close>

lemmas pred_defs = isConfChangeUpToDate_def isAddingRemovedNode_def isPromotingObserver_def
  isInvalidObserverPromotion_def isAddingExistingMember_def isAddingNodeAsObserver_def
  isAddingNodeAsWitness_def isAddingWitnessAsObserver_def isAddingWitnessAsNode_def
  isAddingObserverAsWitness_def isDeletingOnlyNode_def

lemmas store_defs = set_membership_def newMembership_def deepCopyMembership_def domIff

lemmas address_defs = addressEqual_def TrimSpace_def isSpace_def foldEq_def

lemma stale_iff: "stale m cc \<longleftrightarrow> \<not> isConfChangeUpToDate m cc"
  by (auto simp: stale_def isConfChangeUpToDate_def)

lemma handle_rejected:
  assumes "\<not> isConfChangeUpToDate m cc \<or> rejecting m cc"
  shows "\<exists>ev. handleConfigChange m cc i = Inr (False, m, ev)"
  using assms unfolding handleConfigChange_def rejecting_def Let_def
  by auto

lemma handle_accepted:
  assumes "isConfChangeUpToDate m cc" and "\<not> rejecting m cc"
  shows "handleConfigChange m cc i =
     (case applyConfigChange m cc i of
        Inl p \<Rightarrow> Inl p
      | Inr m' \<Rightarrow>
          (case Type cc of
             AddNode \<Rightarrow> Inr (True, m', AppliedAdd)
           | RemoveNode \<Rightarrow> Inr (True, m', AppliedRemove)
           | AddObserver \<Rightarrow> Inr (True, m', AppliedAddObserver)
           | AddWitness \<Rightarrow> Inr (True, m', AppliedAddWitness)
           | UnknownType v \<Rightarrow> Inl UnknownCCTypeValue))"
  using assms unfolding handleConfigChange_def rejecting_def Let_def
  by (auto split: sum.splits ConfigChangeType.splits)

text \<open>The defensive checks of the applier never fire on a request the validator let through.\<close>

lemma apply_ok:
  assumes "\<not> rejecting m cc" and "knownType (Type cc)"
  shows "\<exists>m'. applyConfigChange m cc i = Inr m'"
  using assms unfolding applyConfigChange_def rejecting_def knownType_def Let_def
    isAddingNodeAsObserver_def isAddingNodeAsWitness_def isAddingWitnessAsNode_def
    isAddingWitnessAsObserver_def isAddingObserverAsWitness_def
  by (auto split: ConfigChangeType.splits)

lemma apply_unknown:
  "\<not> knownType (Type cc) \<Longrightarrow> applyConfigChange m cc i = Inl UnknownConfigChangeType"
  unfolding applyConfigChange_def knownType_def Let_def
  by (auto split: ConfigChangeType.splits)

lemma rejecting_RemoveNode:
  "Type cc = RemoveNode \<Longrightarrow> rejecting m cc = isDeletingOnlyNode m cc"
  by (simp add: rejecting_def isAddingRemovedNode_def isAddingExistingMember_def
      isPromotingObserver_def isAddingNodeAsObserver_def isAddingNodeAsWitness_def
      isAddingWitnessAsNode_def isAddingWitnessAsObserver_def isAddingObserverAsWitness_def
      isInvalidObserverPromotion_def)

lemma rejecting_unknown:
  "\<not> knownType (Type cc) \<Longrightarrow> \<not> rejecting m cc"
  by (simp add: knownType_def rejecting_def isAddingRemovedNode_def isAddingExistingMember_def
      isPromotingObserver_def isAddingNodeAsObserver_def isAddingNodeAsWitness_def
      isAddingWitnessAsNode_def isAddingWitnessAsObserver_def isAddingObserverAsWitness_def
      isInvalidObserverPromotion_def isDeletingOnlyNode_def)

text \<open>
  The three outcomes of a call: a panic on an unknown kind that is not rejected, an accepted
  change that the applier carried out, or a rejection that leaves the store as it was.
\<close>

lemma handle_cases:
  "(\<not> stale m cc \<and> \<not> rejecting m cc \<and> \<not> knownType (Type cc) \<and>
      handleConfigChange m cc i = Inl UnknownConfigChangeType)
   \<or> (\<not> stale m cc \<and> \<not> rejecting m cc \<and> knownType (Type cc) \<and>
      (\<exists>m' ev. applyConfigChange m cc i = Inr m' \<and>
               handleConfigChange m cc i = Inr (True, m', ev)))
   \<or> ((stale m cc \<or> rejecting m cc) \<and>
      (\<exists>ev. handleConfigChange m cc i = Inr (False, m, ev)))"
proof (cases "stale m cc \<or> rejecting m cc")
  case True
  then show ?thesis using handle_rejected[of m cc i] by (simp add: stale_iff)
next
  case False
  then have u: "isConfChangeUpToDate m cc" and r: "\<not> rejecting m cc"
    by (simp_all add: stale_iff)
  show ?thesis
  proof (cases "knownType (Type cc)")
    case True
    from apply_ok[OF r True] obtain m' where a: "applyConfigChange m cc i = Inr m'" by blast
    have "\<exists>ev. handleConfigChange m cc i = Inr (True, m', ev)"
      using True by (cases "Type cc") (simp_all add: handle_accepted[OF u r] a knownType_def)
    with a False True show ?thesis by blast
  next
    case k: False
    have "handleConfigChange m cc i = Inl UnknownConfigChangeType"
      by (simp add: handle_accepted[OF u r] apply_unknown[OF k])
    with False k show ?thesis by blast
  qed
qed

lemma apply_exclusive:
  assumes "exclusive (members m)" and "\<not> rejecting m cc"
    and "applyConfigChange m cc i = Inr m'"
  shows "exclusive (members m')"
  using assms unfolding applyConfigChange_def Let_def exclusive_def rejecting_def
    isAddingNodeAsObserver_def isAddingNodeAsWitness_def isAddingWitnessAsNode_def
    isAddingWitnessAsObserver_def isAddingObserverAsWitness_def disjoint_iff
  by (cases "Type cc") (auto split: if_splits simp: domIff; blast)+

lemma apply_changeOrder:
  "applyConfigChange m cc i = Inr m' \<Longrightarrow> ConfigChangeId (members m') = i"
  unfolding applyConfigChange_def Let_def
  by (cases "Type cc") (auto split: if_splits)

lemma apply_removed:
  "applyConfigChange m cc i = Inr m' \<Longrightarrow>
     dom (Removed (members m)) \<subseteq> dom (Removed (members m'))"
  unfolding applyConfigChange_def Let_def
  by (cases "Type cc") (auto split: if_splits)

lemma handle_changeOrder:
  assumes "handleConfigChange m cc i = Inr (a, m', ev)"
  shows "ConfigChangeId (members m') = (if a then i else ConfigChangeId (members m))"
  using handle_cases[of m cc i] assms apply_changeOrder[of m cc i] by auto

lemma handle_removed:
  assumes "handleConfigChange m cc i = Inr (a, m', ev)"
  shows "dom (Removed (members m)) \<subseteq> dom (Removed (members m'))"
  using handle_cases[of m cc i] assms apply_removed[of m cc i] by auto

subsection \<open>The accept decision\<close>

text \<open>
  Claim C1, as stated: for every snapshot and every request, the call returns true if and
  only if the request is not stale and none of the nine rejection predicates holds
  (\<open>isAddingRemovedNode\<close> is targetRemoved, \<open>isAddingExistingMember\<close> alreadyMember,
  \<open>isAddingNodeAsObserver\<close> observerOverVoter, \<open>isAddingNodeAsWitness\<close>
  witnessOverVoter, \<open>isAddingWitnessAsNode\<close> witnessToVoter,
  \<open>isAddingWitnessAsObserver\<close> witnessToObserver, \<open>isAddingObserverAsWitness\<close>
  observerToWitness, \<open>isDeletingOnlyNode\<close> lastVoterRemoval and
  \<open>isInvalidObserverPromotion\<close> invalidPromotion). This fails for a request of unknown
  kind: on a new store the request \<open>ex_unknown\<close> is not stale and no predicate holds, yet
  the call does not return true, it panics in \<open>applyConfigChange\<close>.
\<close>

theorem C1_counterexample:
  "handleConfigChange (newMembership 1 1 True) ex_unknown 1 = Inl UnknownConfigChangeType \<and>
   \<not> (accepted_of (handleConfigChange (newMembership 1 1 True) ex_unknown 1) = Some True \<longleftrightarrow>
        (\<not> stale (newMembership 1 1 True) ex_unknown \<and>
         \<not> (isAddingRemovedNode (newMembership 1 1 True) ex_unknown \<or>
            isAddingExistingMember (newMembership 1 1 True) ex_unknown \<or>
            isAddingNodeAsObserver (newMembership 1 1 True) ex_unknown \<or>
            isAddingNodeAsWitness (newMembership 1 1 True) ex_unknown \<or>
            isAddingWitnessAsNode (newMembership 1 1 True) ex_unknown \<or>
            isAddingWitnessAsObserver (newMembership 1 1 True) ex_unknown \<or>
            isAddingObserverAsWitness (newMembership 1 1 True) ex_unknown \<or>
            isDeletingOnlyNode (newMembership 1 1 True) ex_unknown \<or>
            isInvalidObserverPromotion (newMembership 1 1 True) ex_unknown)))"
  by (simp add: ex_unknown_def store_defs stale_def handleConfigChange_def
      applyConfigChange_def Let_def pred_defs accepted_of_def)

text \<open>
  Claim C1, amended: for every snapshot and every request, the call returns true if and
  only if the kind of the request is one of AddNode, RemoveNode, AddObserver and
  AddWitness, the request is not stale, and none of the nine rejection predicates holds.
\<close>

theorem C1_accepted_iff:
  "accepted_of (handleConfigChange m cc i) = Some True \<longleftrightarrow>
     (knownType (Type cc) \<and> \<not> stale m cc \<and>
      \<not> (isAddingRemovedNode m cc \<or> isAddingExistingMember m cc \<or>
         isAddingNodeAsObserver m cc \<or> isAddingNodeAsWitness m cc \<or>
         isAddingWitnessAsNode m cc \<or> isAddingWitnessAsObserver m cc \<or>
         isAddingObserverAsWitness m cc \<or> isDeletingOnlyNode m cc \<or>
         isInvalidObserverPromotion m cc))"
  using handle_cases[of m cc i] unfolding rejecting_def[symmetric]
  by (auto simp: accepted_of_def)

theorem C1_accepted_iff_witness:
  "knownType (Type ex_bootstrap) \<and> \<not> stale (newMembership 1 1 True) ex_bootstrap \<and>
   accepted_of (handleConfigChange (newMembership 1 1 True) ex_bootstrap 1) = Some True \<and>
   stale (newMembership 1 1 True) ex_stale \<and>
   accepted_of (handleConfigChange (newMembership 1 1 True) ex_stale 1) \<noteq> Some True"
  using C1_accepted_iff[of "newMembership 1 1 True" ex_bootstrap 1]
    C1_accepted_iff[of "newMembership 1 1 True" ex_stale 1]
  by (simp add: ex_bootstrap_def ex_stale_def knownType_def stale_def store_defs pred_defs)

subsection \<open>Exclusivity\<close>

lemma handle_exclusive:
  assumes "exclusive (members m)" and "handleConfigChange m cc i = Inr (a, m', ev)"
  shows "exclusive (members m')"
  using handle_cases[of m cc i] assms apply_exclusive[of m cc i] by auto

lemma run_changes_exclusive:
  "exclusive (members m) \<Longrightarrow> run_changes m calls = Inr (log, m') \<Longrightarrow> exclusive (members m')"
proof (induction calls arbitrary: m log)
  case Nil
  then show ?case by simp
next
  case (Cons c calls)
  obtain cc i where c: "c = (cc, i)" by (cases c)
  from Cons.prems(2) c obtain a m1 ev log1 where
    h: "handleConfigChange m cc i = Inr (a, m1, ev)" and
    r: "run_changes m1 calls = Inr (log1, m')"
    by (auto split: sum.splits)
  from handle_exclusive[OF Cons.prems(1) h] have "exclusive (members m1)" .
  then show ?case using r by (rule Cons.IH)
qed

text \<open>
  Claim C2: starting from a snapshot in which every node id is in at most one of voters,
  observers and witnesses, every call that returns, accepted or rejected, leaves a snapshot
  with the same property, and so does every sequence of calls; a call with one of the four
  known kinds does return.
\<close>

theorem C2_exclusive_preserved:
  assumes "exclusive (members m)"
  shows "(knownType (Type cc) \<longrightarrow> accepted_of (handleConfigChange m cc i) \<noteq> None) \<and>
         (\<forall>a m' ev. handleConfigChange m cc i = Inr (a, m', ev) \<longrightarrow> exclusive (members m')) \<and>
         (\<forall>log m'. run_changes m calls = Inr (log, m') \<longrightarrow> exclusive (members m'))"
proof (intro conjI impI allI)
  assume "knownType (Type cc)"
  then show "accepted_of (handleConfigChange m cc i) \<noteq> None"
    using handle_cases[of m cc i] by (auto simp: accepted_of_def)
next
  fix a m' ev
  assume "handleConfigChange m cc i = Inr (a, m', ev)"
  with assms show "exclusive (members m')" by (rule handle_exclusive)
next
  fix log m'
  assume "run_changes m calls = Inr (log, m')"
  with assms show "exclusive (members m')" by (rule run_changes_exclusive)
qed

theorem C2_exclusive_preserved_witness:
  "exclusive (members ex_two_voters) \<and>
   handleConfigChange ex_two_voters (ex_voter2\<lparr>NodeID := 3, ConfigChangeId_cc := 3, Address := ''c''\<rparr>) 4 =
     Inr (True,
          ex_two_voters\<lparr>members := (members ex_two_voters)\<lparr>ConfigChangeId := 4,
             Observers := Map.empty, Addresses := [1 \<mapsto> ''a'', 2 \<mapsto> ''b'', 3 \<mapsto> ''c'']\<rparr>\<rparr>,
          AppliedAdd) \<and>
   exclusive (members (ex_two_voters\<lparr>members := (members ex_two_voters)\<lparr>ConfigChangeId := 4,
             Observers := Map.empty, Addresses := [1 \<mapsto> ''a'', 2 \<mapsto> ''b'', 3 \<mapsto> ''c'']\<rparr>\<rparr>))"
proof -
  have e: "exclusive (members ex_two_voters)"
    by (simp add: ex_two_voters_def exclusive_def)
  have h: "handleConfigChange ex_two_voters
             (ex_voter2\<lparr>NodeID := 3, ConfigChangeId_cc := 3, Address := ''c''\<rparr>) 4 =
     Inr (True,
          ex_two_voters\<lparr>members := (members ex_two_voters)\<lparr>ConfigChangeId := 4,
             Observers := Map.empty, Addresses := [1 \<mapsto> ''a'', 2 \<mapsto> ''b'', 3 \<mapsto> ''c'']\<rparr>\<rparr>,
          AppliedAdd)"
    by (simp add: ex_two_voters_def ex_voter2_def handleConfigChange_def applyConfigChange_def
        Let_def pred_defs address_defs domIff)
  from C2_exclusive_preserved[OF e, of _ 4 "[]"] h e show ?thesis by blast
qed

subsection \<open>Rejection\<close>

text \<open>
  Claim C3: if the call returns false, the store is the one before the call: voters,
  observers, witnesses, removed set and change order are unchanged.
\<close>

theorem C3_rejection_noop:
  assumes "handleConfigChange m cc i = Inr (False, m', ev)"
  shows "Addresses (members m') = Addresses (members m) \<and>
         Observers (members m') = Observers (members m) \<and>
         Witnesses (members m') = Witnesses (members m) \<and>
         Removed (members m') = Removed (members m) \<and>
         ConfigChangeId (members m') = ConfigChangeId (members m) \<and>
         m' = m"
  using handle_cases[of m cc i] assms by auto

theorem C3_rejection_noop_witness:
  "handleConfigChange ex_one_voter ex_observer1 2 = Inr (False, ex_one_voter, RejAddExistAsObserver) \<and>
   Addresses (members ex_one_voter) = [1 \<mapsto> ''a''] \<and>
   ConfigChangeId (members ex_one_voter) = 1"
proof -
  have h: "handleConfigChange ex_one_voter ex_observer1 2 =
             Inr (False, ex_one_voter, RejAddExistAsObserver)"
    by (simp add: ex_one_voter_def ex_observer1_def handleConfigChange_def Let_def pred_defs
        address_defs domIff)
  from C3_rejection_noop[OF h] h show ?thesis
    by (simp add: ex_one_voter_def)
qed

subsection \<open>The last voter\<close>

text \<open>
  Claim C5: on a snapshot with exactly one voter, a RemoveNode request for that voter is
  rejected and the store is unchanged, whatever the change order of the snapshot, the
  order of the request and its bootstrap flag are. The reason logged is the stale order
  when the request is stale and the removal of the only node otherwise.
\<close>

theorem C5_last_voter:
  assumes "card (dom (Addresses (members m))) = 1"
    and "Type cc = RemoveNode"
    and "NodeID cc \<in> dom (Addresses (members m))"
  shows "handleConfigChange m cc i =
           Inr (False, m, if isConfChangeUpToDate m cc then RejRemoveOnlyNode else RejOutOfOrder)"
proof -
  have d: "isDeletingOnlyNode m cc"
    using assms by (simp add: isDeletingOnlyNode_def)
  have o: "\<not> isAddingRemovedNode m cc" "\<not> isAddingExistingMember m cc"
    "\<not> isAddingNodeAsObserver m cc" "\<not> isAddingNodeAsWitness m cc"
    "\<not> isAddingWitnessAsNode m cc" "\<not> isAddingWitnessAsObserver m cc"
    "\<not> isAddingObserverAsWitness m cc"
    using assms(2)
    by (simp_all add: isAddingRemovedNode_def isAddingExistingMember_def
        isPromotingObserver_def isAddingNodeAsObserver_def isAddingNodeAsWitness_def
        isAddingWitnessAsNode_def isAddingWitnessAsObserver_def isAddingObserverAsWitness_def)
  show ?thesis using d o by (simp add: handleConfigChange_def Let_def)
qed

theorem C5_last_voter_witness:
  "card (dom (Addresses (members ex_one_voter))) = 1 \<and>
   NodeID ex_remove1 \<in> dom (Addresses (members ex_one_voter)) \<and>
   handleConfigChange ex_one_voter ex_remove1 2 = Inr (False, ex_one_voter, RejOutOfOrder) \<and>
   handleConfigChange ex_one_voter (ex_remove1\<lparr>Initialize := True\<rparr>) 2 =
     Inr (False, ex_one_voter, RejRemoveOnlyNode)"
proof -
  have c: "card (dom (Addresses (members ex_one_voter))) = 1"
    by (simp add: ex_one_voter_def)
  have t: "Type ex_remove1 = RemoveNode" "Type (ex_remove1\<lparr>Initialize := True\<rparr>) = RemoveNode"
    by (simp_all add: ex_remove1_def)
  have n: "NodeID ex_remove1 \<in> dom (Addresses (members ex_one_voter))"
    "NodeID (ex_remove1\<lparr>Initialize := True\<rparr>) \<in> dom (Addresses (members ex_one_voter))"
    by (simp_all add: ex_one_voter_def ex_remove1_def)
  have u: "\<not> isConfChangeUpToDate ex_one_voter ex_remove1"
    "isConfChangeUpToDate ex_one_voter (ex_remove1\<lparr>Initialize := True\<rparr>)"
    by (simp_all add: ex_one_voter_def ex_remove1_def isConfChangeUpToDate_def)
  from C5_last_voter[OF c t(1) n(1), of 2] C5_last_voter[OF c t(2) n(2), of 2] u c n
  show ?thesis by simp
qed

subsection \<open>Removing a node\<close>

text \<open>
  Claim C9: a RemoveNode request that is not stale and whose target is not the only voter
  is accepted, whether or not the target is a member or was removed before (the predicate
  \<open>isAddingRemovedNode\<close> is false for RemoveNode); afterwards the target is in the
  removed set and in none of the three role maps.
\<close>

theorem C9_remove_any_node:
  assumes "Type cc = RemoveNode"
    and "\<not> stale m cc"
    and "\<not> (card (dom (Addresses (members m))) = 1 \<and> NodeID cc \<in> dom (Addresses (members m)))"
  shows "\<not> isAddingRemovedNode m cc \<and>
         (\<exists>m'. handleConfigChange m cc i = Inr (True, m', AppliedRemove) \<and>
               NodeID cc \<in> dom (Removed (members m')) \<and>
               NodeID cc \<notin> dom (Addresses (members m')) \<and>
               NodeID cc \<notin> dom (Observers (members m')) \<and>
               NodeID cc \<notin> dom (Witnesses (members m')))"
proof -
  have u: "isConfChangeUpToDate m cc" using assms(2) by (simp add: stale_iff)
  have r: "\<not> rejecting m cc"
    using assms(1,3) by (simp add: rejecting_RemoveNode isDeletingOnlyNode_def)
  have "\<not> isAddingRemovedNode m cc" using r by (simp add: rejecting_def)
  moreover have "\<exists>m'. handleConfigChange m cc i = Inr (True, m', AppliedRemove) \<and>
               NodeID cc \<in> dom (Removed (members m')) \<and>
               NodeID cc \<notin> dom (Addresses (members m')) \<and>
               NodeID cc \<notin> dom (Observers (members m')) \<and>
               NodeID cc \<notin> dom (Witnesses (members m'))"
    using assms(1) by (simp add: handle_accepted[OF u r] applyConfigChange_def Let_def)
  ultimately show ?thesis by blast
qed

theorem C9_remove_any_node_witness:
  "Type (ex_remove5\<lparr>ConfigChangeId_cc := 1\<rparr>) = RemoveNode \<and>
   \<not> stale ex_removed5 (ex_remove5\<lparr>ConfigChangeId_cc := 1\<rparr>) \<and>
   5 \<in> dom (Removed (members ex_removed5)) \<and>
   5 \<notin> dom (Addresses (members ex_removed5)) \<and>
   (\<exists>m'. handleConfigChange ex_removed5 (ex_remove5\<lparr>ConfigChangeId_cc := 1\<rparr>) 2 =
            Inr (True, m', AppliedRemove) \<and>
         5 \<in> dom (Removed (members m')))"
proof -
  have t: "Type (ex_remove5\<lparr>ConfigChangeId_cc := 1\<rparr>) = RemoveNode"
    by (simp add: ex_remove5_def)
  have s: "\<not> stale ex_removed5 (ex_remove5\<lparr>ConfigChangeId_cc := 1\<rparr>)"
    by (simp add: stale_def ex_remove5_def ex_removed5_def)
  have v: "\<not> (card (dom (Addresses (members ex_removed5))) = 1 \<and>
             NodeID (ex_remove5\<lparr>ConfigChangeId_cc := 1\<rparr>) \<in> dom (Addresses (members ex_removed5)))"
    by (simp add: ex_removed5_def)
  have n: "NodeID (ex_remove5\<lparr>ConfigChangeId_cc := 1\<rparr>) = 5"
    by (simp add: ex_remove5_def)
  have d: "5 \<in> dom (Removed (members ex_removed5))" "5 \<notin> dom (Addresses (members ex_removed5))"
    by (simp_all add: ex_removed5_def)
  from C9_remove_any_node[OF t s v, of 2] t s d show ?thesis
    unfolding n by blast
qed

subsection \<open>Requests of unknown kind\<close>

text \<open>
  Claim C10: for a request whose kind is none of the four known kinds every rejection
  predicate is false; if the request is stale the call returns false, with the store
  unchanged and without a panic, and if it is not stale the call reaches the panic of the
  applier.
\<close>

theorem C10_unknown_kind:
  assumes "\<not> knownType (Type cc)"
  shows "\<not> (isAddingRemovedNode m cc \<or> isAddingExistingMember m cc \<or>
            isAddingNodeAsObserver m cc \<or> isAddingNodeAsWitness m cc \<or>
            isAddingWitnessAsNode m cc \<or> isAddingWitnessAsObserver m cc \<or>
            isAddingObserverAsWitness m cc \<or> isDeletingOnlyNode m cc \<or>
            isInvalidObserverPromotion m cc) \<and>
         (stale m cc \<longrightarrow> handleConfigChange m cc i = Inr (False, m, RejOutOfOrder)) \<and>
         (\<not> stale m cc \<longrightarrow> handleConfigChange m cc i = Inl UnknownConfigChangeType)"
proof (intro conjI impI)
  show "\<not> (isAddingRemovedNode m cc \<or> isAddingExistingMember m cc \<or>
            isAddingNodeAsObserver m cc \<or> isAddingNodeAsWitness m cc \<or>
            isAddingWitnessAsNode m cc \<or> isAddingWitnessAsObserver m cc \<or>
            isAddingObserverAsWitness m cc \<or> isDeletingOnlyNode m cc \<or>
            isInvalidObserverPromotion m cc)"
    using rejecting_unknown[OF assms, of m] by (simp add: rejecting_def)
next
  assume "stale m cc"
  then show "handleConfigChange m cc i = Inr (False, m, RejOutOfOrder)"
    by (simp add: stale_iff handleConfigChange_def Let_def)
next
  assume "\<not> stale m cc"
  then have u: "isConfChangeUpToDate m cc" by (simp add: stale_iff)
  show "handleConfigChange m cc i = Inl UnknownConfigChangeType"
    by (simp add: handle_accepted[OF u rejecting_unknown[OF assms]] apply_unknown[OF assms])
qed

theorem C10_unknown_kind_witness:
  "\<not> knownType (Type ex_unknown_stale) \<and> stale ex_one_voter ex_unknown_stale \<and>
   handleConfigChange ex_one_voter ex_unknown_stale 2 = Inr (False, ex_one_voter, RejOutOfOrder) \<and>
   \<not> knownType (Type (ex_unknown\<lparr>ConfigChangeId_cc := 1\<rparr>)) \<and>
   \<not> stale ex_one_voter (ex_unknown\<lparr>ConfigChangeId_cc := 1\<rparr>) \<and>
   handleConfigChange ex_one_voter (ex_unknown\<lparr>ConfigChangeId_cc := 1\<rparr>) 2 =
     Inl UnknownConfigChangeType"
proof -
  have k: "\<not> knownType (Type ex_unknown_stale)"
    "\<not> knownType (Type (ex_unknown\<lparr>ConfigChangeId_cc := 1\<rparr>))"
    by (simp_all add: knownType_def ex_unknown_stale_def ex_unknown_def)
  have s: "stale ex_one_voter ex_unknown_stale"
    "\<not> stale ex_one_voter (ex_unknown\<lparr>ConfigChangeId_cc := 1\<rparr>)"
    by (simp_all add: stale_def ex_one_voter_def ex_unknown_stale_def ex_unknown_def)
  from C10_unknown_kind[OF k(1), of ex_one_voter 2] C10_unknown_kind[OF k(2), of ex_one_voter 2] k s
  show ?thesis by simp
qed

subsection \<open>The change order\<close>

lemma run_changes_log:
  "run_changes m calls = Inr (log, m') \<Longrightarrow>
     list_all2 (\<lambda>call entry. fst entry \<longrightarrow> snd entry = snd call) calls log \<and>
     ConfigChangeId (members m') = last (ConfigChangeId (members m) # map snd (filter fst log))"
proof (induction calls arbitrary: m log)
  case Nil
  then show ?case by simp
next
  case (Cons c calls)
  obtain cc i where c: "c = (cc, i)" by (cases c)
  from Cons.prems c obtain a m1 ev log1 where
    h: "handleConfigChange m cc i = Inr (a, m1, ev)" and
    r: "run_changes m1 calls = Inr (log1, m')" and
    l: "log = (a, ConfigChangeId (members m1)) # log1"
    by (auto split: sum.splits)
  note ih = Cons.IH[OF r]
  note co = handle_changeOrder[OF h]
  show ?case using ih co by (simp add: l c)
qed

lemma accepted_orders_subset:
  assumes "list_all2 (\<lambda>call entry. fst entry \<longrightarrow> snd entry = snd call) calls log"
  shows "set (map snd (filter fst log)) \<subseteq> set (map snd calls)"
  using assms by (induction rule: list_all2_induct) auto

lemma accepted_orders_sorted:
  assumes "list_all2 (\<lambda>call entry. fst entry \<longrightarrow> snd entry = snd call) calls log"
    and "sorted_wrt (<) (map snd calls)"
  shows "sorted_wrt (<) (map snd (filter fst (log :: (bool \<times> uint64) list)))"
  using assms
proof (induction rule: list_all2_induct)
  case Nil
  then show ?case by simp
next
  case (Cons c calls e log)
  have sub: "set (map snd (filter fst log)) \<subseteq> set (map snd calls)"
    using Cons.hyps(2) by (rule accepted_orders_subset)
  have gt: "\<forall>y \<in> set (map snd calls). snd c < y"
    using Cons.prems by simp
  have "\<forall>y \<in> set (map snd (filter fst log)). snd c < y"
    using sub gt by blast
  moreover have "sorted_wrt (<) (map snd (filter fst log))"
    using Cons.IH Cons.prems by simp
  ultimately show ?case using Cons.hyps(1) by simp
qed

text \<open>
  Claim C4: a call that returns true leaves the change order equal to the log index of the
  call, and a call that returns false leaves it unchanged. Hence, for a sequence of calls
  whose log indices are strictly increasing, with \<open>log\<close> the list of the flags returned
  and the change orders after each call: the change order after every accepted call is
  the log index of that call, the change orders after the accepted calls are strictly
  increasing (also from the change order at the start, when every log index is above it),
  and the change order at the end is the one of the last accepted call (the one at the
  start if no call was accepted).
\<close>

theorem C4_change_order:
  "(handleConfigChange m cc i = Inr (a, m1, ev) \<longrightarrow>
      ConfigChangeId (members m1) = (if a then i else ConfigChangeId (members m))) \<and>
   (sorted_wrt (<) (map snd calls) \<and> run_changes m calls = Inr (log, m2) \<longrightarrow>
      list_all2 (\<lambda>call entry. fst entry \<longrightarrow> snd entry = snd call) calls log \<and>
      sorted_wrt (<) (map snd (filter fst log)) \<and>
      ((\<forall>j \<in> set (map snd calls). ConfigChangeId (members m) < j) \<longrightarrow>
         sorted_wrt (<) (ConfigChangeId (members m) # map snd (filter fst log))) \<and>
      ConfigChangeId (members m2) = last (ConfigChangeId (members m) # map snd (filter fst log)))"
proof (intro conjI impI)
  assume "handleConfigChange m cc i = Inr (a, m1, ev)"
  then show "ConfigChangeId (members m1) = (if a then i else ConfigChangeId (members m))"
    by (rule handle_changeOrder)
next
  assume h: "sorted_wrt (<) (map snd calls) \<and> run_changes m calls = Inr (log, m2)"
  then have l: "list_all2 (\<lambda>call entry. fst entry \<longrightarrow> snd entry = snd call) calls log"
    and e: "ConfigChangeId (members m2) =
              last (ConfigChangeId (members m) # map snd (filter fst log))"
    using run_changes_log[of m calls log m2] by simp_all
  show "list_all2 (\<lambda>call entry. fst entry \<longrightarrow> snd entry = snd call) calls log" by (rule l)
  show s: "sorted_wrt (<) (map snd (filter fst log))"
    using accepted_orders_sorted[OF l] h by simp
  show "ConfigChangeId (members m2) =
          last (ConfigChangeId (members m) # map snd (filter fst log))" by (rule e)
  assume "\<forall>j \<in> set (map snd calls). ConfigChangeId (members m) < j"
  then have "\<forall>j \<in> set (map snd (filter fst log)). ConfigChangeId (members m) < j"
    using accepted_orders_subset[OF l] by blast
  with s show "sorted_wrt (<) (ConfigChangeId (members m) # map snd (filter fst log))"
    by simp
qed

theorem C4_change_order_witness:
  "sorted_wrt (<) (map snd [(ex_bootstrap, 1 :: uint64), (ex_observer1, 2), (ex_voter2, 3)]) \<and>
   run_changes (newMembership 1 1 True) [(ex_bootstrap, 1), (ex_observer1, 2), (ex_voter2, 3)] =
     Inr ([(True, 1), (False, 1), (True, 3)],
          \<lparr>clusterID = 1, nodeID = 1, ordered = True,
            members = \<lparr>ConfigChangeId = 3,
                        Addresses = [1 \<mapsto> ''10.0.0.1:9000'', 2 \<mapsto> ''10.0.0.2:9000''],
                        Removed = Map.empty, Observers = Map.empty, Witnesses = Map.empty\<rparr>\<rparr>) \<and>
   sorted_wrt (<) (ConfigChangeId (members (newMembership 1 1 True)) #
           map snd (filter fst [(True, 1 :: uint64), (False, 1), (True, 3)])) \<and>
   last (ConfigChangeId (members (newMembership 1 1 True)) #
           map snd (filter fst [(True, 1 :: uint64), (False, 1), (True, 3)])) = 3"
proof -
  let ?calls = "[(ex_bootstrap, 1 :: uint64), (ex_observer1, 2), (ex_voter2, 3)]"
  let ?log = "[(True, 1 :: uint64), (False, 1), (True, 3)]"
  let ?final = "\<lparr>clusterID = 1, nodeID = 1, ordered = True,
            members = \<lparr>ConfigChangeId = 3,
                        Addresses = [1 \<mapsto> ''10.0.0.1:9000'', 2 \<mapsto> ''10.0.0.2:9000''],
                        Removed = Map.empty, Observers = Map.empty, Witnesses = Map.empty\<rparr>\<rparr>"
  have s: "sorted_wrt (<) (map snd ?calls)"
    by simp
  have r: "run_changes (newMembership 1 1 True) ?calls = Inr (?log, ?final)"
    by (simp add: ex_bootstrap_def ex_observer1_def ex_voter2_def store_defs
        handleConfigChange_def applyConfigChange_def Let_def pred_defs address_defs)
  have c: "ConfigChangeId (members (newMembership 1 1 True)) = 0"
    by (simp add: newMembership_def)
  have b: "\<forall>j \<in> set (map snd ?calls). ConfigChangeId (members (newMembership 1 1 True)) < j"
    by (simp add: c)
  from C4_change_order[of "newMembership 1 1 True" ex_bootstrap 1 True ?final AppliedAdd
      ?calls ?log ?final] s r b
  have "sorted_wrt (<) (ConfigChangeId (members (newMembership 1 1 True)) # map snd (filter fst ?log)) \<and>
        ConfigChangeId (members ?final) =
          last (ConfigChangeId (members (newMembership 1 1 True)) # map snd (filter fst ?log))"
    by blast
  with s r show ?thesis by simp
qed

subsection \<open>The removed set\<close>

lemma store_run_removed:
  "\<forall>x \<in> set ops. isApplyChange x \<Longrightarrow> store_run m ops = Inr m' \<Longrightarrow>
     dom (Removed (members m)) \<subseteq> dom (Removed (members m'))"
proof (induction ops arbitrary: m)
  case Nil
  then show ?case by simp
next
  case (Cons x ops)
  from Cons.prems obtain cc i where x: "x = ApplyChange cc i" by (cases x) auto
  from Cons.prems x obtain a m1 ev where
    h: "handleConfigChange m cc i = Inr (a, m1, ev)" and r: "store_run m1 ops = Inr m'"
    by (auto split: sum.splits)
  have "dom (Removed (members m1)) \<subseteq> dom (Removed (members m'))"
    using Cons.IH[OF _ r] Cons.prems(1) by simp
  with handle_removed[OF h] show ?case by blast
qed

lemma set_removed: "dom (Removed (members (set_membership m n))) = dom (Removed n)"
  by (auto simp: set_membership_def deepCopyMembership_def split: if_splits)

text \<open>
  Claim C8, as stated: across any sequence of \<open>applyChange\<close> and \<open>set\<close> operations
  every node id in the removed set before a call is still in it after the call. This
  fails for \<open>set\<close>, which replaces the whole snapshot without validation: node 5 is
  removed by an accepted RemoveNode on a new store, and is no longer in the removed set
  after a snapshot that does not list it is installed.
\<close>

theorem C8_counterexample:
  "store_run (newMembership 1 1 True) [ApplyChange ex_remove5 1] = Inr ex_removed5 \<and>
   5 \<in> dom (Removed (members ex_removed5)) \<and>
   store_run ex_removed5 [SetSnapshot ex_snapshot] = Inr (set_membership ex_removed5 ex_snapshot) \<and>
   5 \<notin> dom (Removed (members (set_membership ex_removed5 ex_snapshot)))"
  by (simp add: ex_remove5_def ex_removed5_def ex_snapshot_def store_defs
      handleConfigChange_def applyConfigChange_def Let_def pred_defs)

text \<open>
  Claim C8, amended: across any sequence of \<open>applyChange\<close> calls every node id in the
  removed set before the sequence is still in it afterwards; \<open>set\<close> replaces the removed
  set by the one of the installed snapshot.
\<close>

theorem C8_removed_monotonic:
  "((\<forall>x \<in> set ops. isApplyChange x) \<and> store_run m ops = Inr m' \<longrightarrow>
      dom (Removed (members m)) \<subseteq> dom (Removed (members m'))) \<and>
   dom (Removed (members (set_membership m n))) = dom (Removed n)"
  using store_run_removed[of ops m m'] set_removed[of m n] by blast

theorem C8_removed_monotonic_witness:
  "isApplyChange (ApplyChange (ex_remove5\<lparr>ConfigChangeId_cc := 1, NodeID := 6\<rparr>) 2) \<and>
   (\<exists>m'. store_run ex_removed5 [ApplyChange (ex_remove5\<lparr>ConfigChangeId_cc := 1, NodeID := 6\<rparr>) 2] = Inr m' \<and>
         dom (Removed (members m')) = {5, 6} \<and>
         dom (Removed (members ex_removed5)) \<subseteq> dom (Removed (members m')))"
proof -
  let ?m' = "ex_removed5\<lparr>members := (members ex_removed5)\<lparr>ConfigChangeId := 2,
               Removed := [5 \<mapsto> True, 6 \<mapsto> True]\<rparr>\<rparr>"
  have a: "\<forall>x \<in> set [ApplyChange (ex_remove5\<lparr>ConfigChangeId_cc := 1, NodeID := 6\<rparr>) 2]. isApplyChange x"
    by simp
  have r: "store_run ex_removed5 [ApplyChange (ex_remove5\<lparr>ConfigChangeId_cc := 1, NodeID := 6\<rparr>) 2]
             = Inr ?m'"
    by (simp add: ex_remove5_def ex_removed5_def handleConfigChange_def applyConfigChange_def
        Let_def pred_defs domIff)
  have d: "dom (Removed (members ?m')) = {5, 6}"
    by (auto simp: ex_removed5_def)
  from C8_removed_monotonic[of "[ApplyChange (ex_remove5\<lparr>ConfigChangeId_cc := 1, NodeID := 6\<rparr>) 2]"
      ex_removed5 ?m'] a r d
  show ?thesis by auto
qed

subsection \<open>Address equality and the promotion of an observer\<close>















subsection \<open>The digest\<close>

lemma PutUint64_example: "PutUint64 0x0807060504030201 = [1, 2, 3, 4, 5, 6, 7, 8]"
  by (simp add: PutUint64_def)

lemma Uint64_example: "Uint64 [1, 2, 3, 4, 5, 6, 7, 8] = Some 0x0807060504030201"
  by simp

text \<open>The padded message is a whole number of blocks.\<close>

lemma length_md5_pad: "length (md5_pad msg) mod 64 = 0"
proof -
  define q r where "q = length msg div 64" and "r = length msg mod 64"
  have n: "length msg = 64 * q + r" and r: "r < 64"
    by (simp_all add: q_def r_def)
  have "length (md5_pad msg) = length msg + 9 + (119 - length msg mod 64) mod 64"
    by (simp add: md5_pad_def PutUint64_def)
  then have l: "length (md5_pad msg) = 64 * q + (r + 9 + (119 - r) mod 64)"
    unfolding r_def[symmetric] by (simp add: n)
  have "r + 9 + (119 - r) mod 64 = 64 \<or> r + 9 + (119 - r) mod 64 = 128"
  proof (cases "r \<le> 55")
    case True
    then have "119 - r = 64 + (55 - r)" by simp
    then have "(119 - r) mod 64 = (64 + (55 - r)) mod 64" by (simp only:)
    also have "\<dots> = (55 - r) mod 64" by (rule mod_add_self1)
    also have "\<dots> = 55 - r" by simp
    finally have "(119 - r) mod 64 = 55 - r" .
    with True show ?thesis by simp
  next
    case False
    then have "(119 - r) mod 64 = 119 - r" using r by simp
    with False r show ?thesis by simp
  qed
  then obtain k where "r + 9 + (119 - r) mod 64 = 64 * k"
    by (metis mult.right_neutral mult_2_right numeral_Bit0)
  with l have "length (md5_pad msg) = 64 * (q + k)"
    by (simp only: distrib_left)
  then show ?thesis by (simp only: mod_mult_self1_is_0)
qed

lemma length_md5_Sum: "length (md5_Sum msg) = 16"
  by (simp add: md5_Sum_def Let_def PutUint32_def split: prod.splits)

lemma fold_written: "fold (\<lambda>v h. h @ f v) vs acc = acc @ concat (map f vs)"
  by (induction vs arbitrary: acc) simp_all

lemma Uint64_None: "Uint64 bs = None \<longleftrightarrow> length bs < 8"
  by (induction bs rule: Uint64.induct) simp_all

lemma Uint64_md5: "\<exists>h. Uint64 (take 8 (md5_Sum msg)) = Some h"
proof -
  have "length (take 8 (md5_Sum msg)) = 8" by (simp add: length_md5_Sum)
  then have "Uint64 (take 8 (md5_Sum msg)) \<noteq> None" by (simp add: Uint64_None)
  then show ?thesis by blast
qed

lemma sort_range_order:
  assumes "isRangeOrder mp ks"
  shows "sort ks = sorted_list_of_set (dom mp)"
proof -
  from assms have d: "distinct ks" and s: "set ks = dom mp"
    by (simp_all add: isRangeOrder_def)
  have "sorted_list_of_set (set ks) = sort (remdups ks)"
    by (rule sorted_list_of_set_sort_remdups)
  with d s show ?thesis by (simp add: distinct_remdups_id)
qed

lemma getHash_digest:
  assumes "isRangeOrder (Addresses (members m)) order"
  shows "\<exists>h. getHash m order = Inr h \<and> digest (members m) = Some h"
proof -
  let ?data = "concat (map PutUint64 (sorted_list_of_set (dom (Addresses (members m)))))
                 @ PutUint64 (ConfigChangeId (members m))"
  obtain h where h: "Uint64 (take 8 (md5_Sum ?data)) = Some h" using Uint64_md5 by blast
  have "getHash m order = Inr h"
    by (simp add: getHash_def Let_def fold_written sort_range_order[OF assms] h)
  moreover have "digest (members m) = Some h" by (simp add: digest_def h)
  ultimately show ?thesis by blast
qed

text \<open>
  Two values of the hash, computed from the definitions: the sum of the empty message,
  which is the first test vector of RFC 1321 (d41d8cd98f00b204e9800998ecf8427e), and the
  sum of the 24 bytes that \<open>getHash\<close> writes for the voters 1 and 2 at change order 3.
\<close>

lemma md5_Sum_empty: "md5_Sum [] = [212, 29, 140, 217, 143, 0, 178, 4, 233, 128, 9, 152, 236, 248, 66, 126]"
proof -
  have p: "md5_pad [] =
      [128, 0, 0, 0, 0, 0, 0, 0, 0, 0, 0, 0, 0, 0, 0, 0,
       0, 0, 0, 0, 0, 0, 0, 0, 0, 0, 0, 0, 0, 0, 0, 0,
       0, 0, 0, 0, 0, 0, 0, 0, 0, 0, 0, 0, 0, 0, 0, 0,
       0, 0, 0, 0, 0, 0, 0, 0, 0, 0, 0, 0, 0, 0, 0, 0]"
    by code_simp
  have M: "map (\<lambda>k. Uint32 (drop (4 * k)
      [128, 0, 0, 0, 0, 0, 0, 0, 0, 0, 0, 0, 0, 0, 0, 0,
       0, 0, 0, 0, 0, 0, 0, 0, 0, 0, 0, 0, 0, 0, 0, 0,
       0, 0, 0, 0, 0, 0, 0, 0, 0, 0, 0, 0, 0, 0, 0, 0,
       0, 0, 0, 0, 0, 0, 0, 0, 0, 0, 0, 0, 0, 0, 0, 0])) [0..<16] =
      [0x00000080, 0x00000000, 0x00000000, 0x00000000,
       0x00000000, 0x00000000, 0x00000000, 0x00000000,
       0x00000000, 0x00000000, 0x00000000, 0x00000000,
       0x00000000, 0x00000000, 0x00000000, 0x00000000]"
    by code_simp
  have s: "fold (md5_step
      [0x00000080, 0x00000000, 0x00000000, 0x00000000,
       0x00000000, 0x00000000, 0x00000000, 0x00000000,
       0x00000000, 0x00000000, 0x00000000, 0x00000000,
       0x00000000, 0x00000000, 0x00000000, 0x00000000]) [0..<64]
      (0x67452301, 0xefcdab89, 0x98badcfe, 0x10325476) =
      (0x7246fad3, 0x14e45506, 0xff4ea3eb, 0x6e10a476)"
    by code_simp
  have b: "md5_block
      [128, 0, 0, 0, 0, 0, 0, 0, 0, 0, 0, 0, 0, 0, 0, 0,
       0, 0, 0, 0, 0, 0, 0, 0, 0, 0, 0, 0, 0, 0, 0, 0,
       0, 0, 0, 0, 0, 0, 0, 0, 0, 0, 0, 0, 0, 0, 0, 0,
       0, 0, 0, 0, 0, 0, 0, 0, 0, 0, 0, 0, 0, 0, 0, 0]
      (0x67452301, 0xefcdab89, 0x98badcfe, 0x10325476) =
      (0xd98c1dd4, 0x04b2008f, 0x980980e9, 0x7e42f8ec)"
    by (simp only: md5_block_def prod.case Let_def M s) simp
  show ?thesis
    by (simp add: md5_Sum_def Let_def p b PutUint32_def)
qed

lemma md5_Sum_voters: "md5_Sum [1, 0, 0, 0, 0, 0, 0, 0, 2, 0, 0, 0, 0, 0, 0, 0,
       3, 0, 0, 0, 0, 0, 0, 0] = [170, 52, 26, 21, 245, 173, 228, 79, 170, 251, 225, 144, 249, 140, 37, 135]"
proof -
  have p: "md5_pad [1, 0, 0, 0, 0, 0, 0, 0, 2, 0, 0, 0, 0, 0, 0, 0,
       3, 0, 0, 0, 0, 0, 0, 0] =
      [1, 0, 0, 0, 0, 0, 0, 0, 2, 0, 0, 0, 0, 0, 0, 0,
       3, 0, 0, 0, 0, 0, 0, 0, 128, 0, 0, 0, 0, 0, 0, 0,
       0, 0, 0, 0, 0, 0, 0, 0, 0, 0, 0, 0, 0, 0, 0, 0,
       0, 0, 0, 0, 0, 0, 0, 0, 192, 0, 0, 0, 0, 0, 0, 0]"
    by code_simp
  have M: "map (\<lambda>k. Uint32 (drop (4 * k)
      [1, 0, 0, 0, 0, 0, 0, 0, 2, 0, 0, 0, 0, 0, 0, 0,
       3, 0, 0, 0, 0, 0, 0, 0, 128, 0, 0, 0, 0, 0, 0, 0,
       0, 0, 0, 0, 0, 0, 0, 0, 0, 0, 0, 0, 0, 0, 0, 0,
       0, 0, 0, 0, 0, 0, 0, 0, 192, 0, 0, 0, 0, 0, 0, 0])) [0..<16] =
      [0x00000001, 0x00000000, 0x00000002, 0x00000000,
       0x00000003, 0x00000000, 0x00000080, 0x00000000,
       0x00000000, 0x00000000, 0x00000000, 0x00000000,
       0x00000000, 0x00000000, 0x000000c0, 0x00000000]"
    by code_simp
  have s: "fold (md5_step
      [0x00000001, 0x00000000, 0x00000002, 0x00000000,
       0x00000003, 0x00000000, 0x00000080, 0x00000000,
       0x00000000, 0x00000000, 0x00000000, 0x00000000,
       0x00000000, 0x00000000, 0x000000c0, 0x00000000]) [0..<64]
      (0x67452301, 0xefcdab89, 0x98badcfe, 0x10325476) =
      (0xadd511a9, 0x6017026c, 0xf8271eac, 0x76f33883)"
    by code_simp
  have b: "md5_block
      [1, 0, 0, 0, 0, 0, 0, 0, 2, 0, 0, 0, 0, 0, 0, 0,
       3, 0, 0, 0, 0, 0, 0, 0, 128, 0, 0, 0, 0, 0, 0, 0,
       0, 0, 0, 0, 0, 0, 0, 0, 0, 0, 0, 0, 0, 0, 0, 0,
       0, 0, 0, 0, 0, 0, 0, 0, 192, 0, 0, 0, 0, 0, 0, 0]
      (0x67452301, 0xefcdab89, 0x98badcfe, 0x10325476) =
      (0x151a34aa, 0x4fe4adf5, 0x90e1fbaa, 0x87258cf9)"
    by (simp only: md5_block_def prod.case Let_def M s) simp
  show ?thesis
    by (simp add: md5_Sum_def Let_def p b PutUint32_def)
qed

lemma getHash_example: "getHash ex_two_voters [2, 1] = Inr 5756917491818968234"
proof -
  have so: "sort [2, 1 :: uint64] = [1, 2]"
    by code_simp
  have v: "sort [2, 1] @ [ConfigChangeId (members ex_two_voters)] = [1, 2, 3]"
    by (simp only: so) (simp add: ex_two_voters_def)
  have w: "fold (\<lambda>v h. h @ PutUint64 v) [1, 2, 3] [] =
      [1, 0, 0, 0, 0, 0, 0, 0, 2, 0, 0, 0, 0, 0, 0, 0,
       3, 0, 0, 0, 0, 0, 0, 0]"
    by (simp add: PutUint64_def)
  show ?thesis
    by (simp only: getHash_def Let_def v w md5_Sum_voters) simp
qed

text \<open>
  Claim C7: whatever order the keys of the voter map are visited in, \<open>getHash\<close> returns
  the first eight bytes, read as a little-endian integer, of the MD5 sum of the
  little-endian encodings of the voter ids in ascending order followed by that of the
  change order (\<open>digest\<close>); observers, witnesses, removed set and addresses do not enter it,
  so two stores with the same voter ids and the same change order have the same digest.
\<close>

theorem C7_digest:
  "(isRangeOrder (Addresses (members m)) order \<longrightarrow>
      (\<exists>h. getHash m order = Inr h \<and> digest (members m) = Some h)) \<and>
   (isRangeOrder (Addresses (members m1)) order1 \<and>
    isRangeOrder (Addresses (members m2)) order2 \<and>
    dom (Addresses (members m1)) = dom (Addresses (members m2)) \<and>
    ConfigChangeId (members m1) = ConfigChangeId (members m2) \<longrightarrow>
      getHash m1 order1 = getHash m2 order2)"
proof (intro conjI impI)
  assume "isRangeOrder (Addresses (members m)) order"
  then show "\<exists>h. getHash m order = Inr h \<and> digest (members m) = Some h"
    by (rule getHash_digest)
next
  assume a: "isRangeOrder (Addresses (members m1)) order1 \<and>
    isRangeOrder (Addresses (members m2)) order2 \<and>
    dom (Addresses (members m1)) = dom (Addresses (members m2)) \<and>
    ConfigChangeId (members m1) = ConfigChangeId (members m2)"
  then have "sort order1 = sort order2"
    using sort_range_order[of "Addresses (members m1)" order1]
      sort_range_order[of "Addresses (members m2)" order2] by simp
  with a show "getHash m1 order1 = getHash m2 order2" by (simp add: getHash_def)
qed

theorem C7_digest_witness:
  "isRangeOrder (Addresses (members ex_two_voters)) [2, 1] \<and>
   isRangeOrder (Addresses (members ex_two_voters_moved)) [1, 2] \<and>
   dom (Addresses (members ex_two_voters)) = dom (Addresses (members ex_two_voters_moved)) \<and>
   ConfigChangeId (members ex_two_voters) = ConfigChangeId (members ex_two_voters_moved) \<and>
   getHash ex_two_voters [2, 1] = getHash ex_two_voters_moved [1, 2] \<and>
   getHash ex_two_voters_moved [1, 2] = Inr 5756917491818968234 \<and>
   digest (members ex_two_voters) = Some 5756917491818968234"
proof -
  have r: "isRangeOrder (Addresses (members ex_two_voters)) [2, 1]"
    "isRangeOrder (Addresses (members ex_two_voters_moved)) [1, 2]"
    by (auto simp: isRangeOrder_def ex_two_voters_def ex_two_voters_moved_def)
  have d: "dom (Addresses (members ex_two_voters)) = dom (Addresses (members ex_two_voters_moved))"
    by (auto simp: ex_two_voters_def ex_two_voters_moved_def)
  have c: "ConfigChangeId (members ex_two_voters) = ConfigChangeId (members ex_two_voters_moved)"
    by (simp add: ex_two_voters_def ex_two_voters_moved_def)
  from C7_digest[of ex_two_voters "[2, 1]" ex_two_voters "[2, 1]" ex_two_voters_moved "[1, 2]"]
    r d c
  have "getHash ex_two_voters [2, 1] = getHash ex_two_voters_moved [1, 2] \<and>
        (\<exists>h. getHash ex_two_voters [2, 1] = Inr h \<and> digest (members ex_two_voters) = Some h)"
    by blast
  with r d c getHash_example show ?thesis by auto
qed

end
